theory Spec2Isabelle
  imports Complex_Main "HOL-Library.Product_Lexorder"
begin

section \<open>ReelDeal: the recommendation path of \<open>app.py\<close>\<close>

text \<open>
  The serving path is \<open>recommend(movie, movies_df, index, k=5)\<close> in \<open>app.py\<close>. It reads a
  pandas data frame (one row per movie), an index object with the two methods
  \<open>reconstruct\<close> and \<open>search\<close>, and the TMDb web API through \<open>fetch_poster\<close>.
  Exceptions are values of type \<open>error\<close>; a computation that may raise has type
  \<open>error + 'a\<close> with \<open>Inl\<close> for the exception.
\<close>

datatype error =
    OutOfRange            \<comment> \<open>\<open>index.reconstruct\<close> on a position the index does not hold\<close>
  | IndexError            \<comment> \<open>\<open>movies_df.iloc[idx]\<close> out of bounds\<close>
  | SearchError           \<comment> \<open>\<open>index.search\<close> refusing its arguments\<close>
  | UnexpectedResponse    \<comment> \<open>an exception of \<open>fetch_poster\<close> that is no \<open>RequestException\<close>\<close>
  | TypeError             \<comment> \<open>iterating over a value that is not iterable\<close>
  | AttributeError        \<comment> \<open>\<open>.replace\<close> on a value that is not a string\<close>
  | DivisionByZero        \<comment> \<open>a division by a norm that is zero\<close>

subsection \<open>The data frame\<close>

text \<open>
  \<open>movies_df\<close> is built by \<open>pd.DataFrame(movies_dict)\<close> from the pickled
  \<open>df.to_dict()\<close>: every row keeps the index label it had when it was saved, next to
  its columns \<open>movie_id\<close> and \<open>title\<close>. A row has a label (\<open>.index\<close>) and a position
  (\<open>.iloc\<close>); the two are kept apart here as they are in pandas.
\<close>

record movie_row =
  idx_label :: int
  movie_id :: int
  title :: string

type_synonym dataframe = "movie_row list"

text \<open>\<open>movies_df.iloc[i]\<close>: positional access, negative positions count from the end.\<close>

definition iloc :: "dataframe \<Rightarrow> int \<Rightarrow> error + movie_row" where
  "iloc df i =
     (let n = int (length df) in
      if 0 \<le> i \<and> i < n then Inr (df ! nat i)
      else if - n \<le> i \<and> i < 0 then Inr (df ! nat (n + i))
      else Inl IndexError)"

text \<open>\<open>xs[start:stop]\<close>: Python's slice, with its clamping of both bounds.\<close>

definition slice_bound :: "int \<Rightarrow> int \<Rightarrow> int" where
  "slice_bound n b = (if b < 0 then max (b + n) 0 else min b n)"

definition py_slice :: "'a list \<Rightarrow> int \<Rightarrow> int \<Rightarrow> 'a list" where
  "py_slice xs start stop =
     (let n = int (length xs); s = slice_bound n start; e = slice_bound n stop
      in take (nat (e - s)) (drop (nat s) xs))"

subsection \<open>The index object\<close>

text \<open>
  \<open>recommend\<close> receives the index as an argument and calls two of its methods. The
  object is a record of these two methods; \<open>search\<close> is given one query vector and
  returns the row of labels \<open>indices[0]\<close> (the distances are not used by \<open>recommend\<close>).
\<close>

record 'v index_obj =
  reconstruct :: "int \<Rightarrow> error + 'v"
  search :: "'v \<Rightarrow> int \<Rightarrow> error + int list"

subsection \<open>\<open>fetch_poster\<close>\<close>

text \<open>
  The TMDb API is the environment: for a movie id and an attempt number it either fails
  with a \<open>RequestException\<close>, fails in another way, or answers with a JSON body whose
  \<open>poster_path\<close> field is read with \<open>data.get\<close>.
\<close>

datatype http_outcome =
    RequestException
  | OtherException
  | Body "string option"

type_synonym tmdb = "int \<Rightarrow> nat \<Rightarrow> http_outcome"

fun fetch_poster_loop :: "tmdb \<Rightarrow> int \<Rightarrow> nat list \<Rightarrow> error + string option" where
  "fetch_poster_loop w m [] = Inr None"
| "fetch_poster_loop w m (i # rest) =
     (case w m i of
        Body poster_path \<Rightarrow>
          (case poster_path of
             Some p \<Rightarrow> if p \<noteq> [] then Inr (Some (''https://image.tmdb.org/t/p/w500'' @ p))
                       else Inr None
           | None \<Rightarrow> Inr None)
      | RequestException \<Rightarrow> if i < 4 then fetch_poster_loop w m rest else Inr None
      | OtherException \<Rightarrow> Inl UnexpectedResponse)"

definition fetch_poster :: "tmdb \<Rightarrow> int \<Rightarrow> error + string option" where
  "fetch_poster w m = fetch_poster_loop w m [0..<5]"

subsection \<open>\<open>recommend\<close>\<close>

text \<open>The \<open>for idx in recommended_indices\<close> loop, with its two accumulators.\<close>

fun collect ::
  "tmdb \<Rightarrow> dataframe \<Rightarrow> int list \<Rightarrow> string list \<Rightarrow> string option list
     \<Rightarrow> error + (string list \<times> string option list)" where
  "collect w df [] recommended_movies recommended_posters =
     Inr (recommended_movies, recommended_posters)"
| "collect w df (idx # rest) recommended_movies recommended_posters =
     (case iloc df idx of
        Inl e \<Rightarrow> Inl e
      | Inr row \<Rightarrow>
          (case fetch_poster w (movie_id row) of
             Inl e \<Rightarrow> Inl e
           | Inr poster \<Rightarrow>
               collect w df rest (recommended_movies @ [title row])
                 (recommended_posters @ [poster])))"

text \<open>
  \<open>movies_df[movies_df['title'] == movie].index\<close>: the labels of the rows whose title
  is the queried one, in the frame's order.
\<close>

definition movie_indices :: "dataframe \<Rightarrow> string \<Rightarrow> int list" where
  "movie_indices df movie = map idx_label (filter (\<lambda>r. title r = movie) df)"

text \<open>\<open>indices[0][1:k+1]\<close>: the hits kept after the search.\<close>

definition recommended_indices :: "int list \<Rightarrow> int \<Rightarrow> int list" where
  "recommended_indices hits k = py_slice hits 1 (k + 1)"

text \<open>The body of the \<open>try\<close> block.\<close>

definition try_block ::
  "tmdb \<Rightarrow> string \<Rightarrow> dataframe \<Rightarrow> 'v index_obj \<Rightarrow> int
     \<Rightarrow> error + (string list \<times> string option list)" where
  "try_block w movie df index k =
     (if length (movie_indices df movie) = 0 then Inr ([], [])
      else
        let movie_index = hd (movie_indices df movie) in
        (case reconstruct index movie_index of
           Inl e \<Rightarrow> Inl e
         | Inr query_vector \<Rightarrow>
             (case search index query_vector (k + 1) of
                Inl e \<Rightarrow> Inl e
              | Inr hits \<Rightarrow> collect w df (recommended_indices hits k) [] [])))"

text \<open>
  \<open>recommend\<close> returns the two lists; the second component of the model's result is
  what the call showed with \<open>st.error\<close> (nothing, or the exception it caught).
\<close>

definition recommend ::
  "tmdb \<Rightarrow> string \<Rightarrow> dataframe \<Rightarrow> 'v index_obj \<Rightarrow> int
     \<Rightarrow> (string list \<times> string option list) \<times> error list" where
  "recommend w movie df index k =
     (case try_block w movie df index k of
        Inl e \<Rightarrow> (([], []), [e])
      | Inr r \<Rightarrow> (r, []))"

section \<open>The similarity index behind \<open>recommend\<close>\<close>

text \<open>
  \<open>faiss.IndexFlatIP\<close>, the index object that \<open>build_faiss_index\<close> creates and \<open>app.py\<close>
  loads, is code of the FAISS library and not of the source files. Its two methods are
  modelled from the contract that section 4.3 of the specification gives. Vectors are
  lists of real numbers (the library works in 32-bit floating point).
\<close>

type_synonym vec = "real list"

text \<open>
  Modelled from the spec: the inner product of the query with a stored vector, the score
  of section 4.3 (missing library code: the scoring of \<open>faiss.IndexFlatIP\<close>).
\<close>

definition inner_product :: "vec \<Rightarrow> vec \<Rightarrow> real" where
  "inner_product u v = sum_list (map (\<lambda>(a, b). a * b) (zip u v))"

text \<open>
  Modelled from the spec: \<open>search(query_vector, k)\<close> returns the \<open>k\<close> row positions with
  highest inner product against the query, ordered by descending score, ties broken by
  ascending row position, and at most \<open>N\<close> results when \<open>k\<close> is larger than \<open>N\<close> (missing
  library code: \<open>faiss.IndexFlatIP.search\<close>).
\<close>

definition flat_search :: "vec list \<Rightarrow> vec \<Rightarrow> int \<Rightarrow> int list" where
  "flat_search xb q k =
     map int (take (nat k)
       (sort_key (\<lambda>i. (- inner_product q (xb ! i), i)) [0..<length xb]))"

text \<open>
  Modelled from the spec: the index built from \<open>N\<close> vectors stores them at the positions
  \<open>0..N-1\<close>; \<open>reconstruct(i)\<close> returns the stored vector at position \<open>i\<close> and fails with
  an OutOfRange error if \<open>i\<close> is not a valid position (missing library code:
  \<open>faiss.IndexFlatIP\<close> with \<open>add\<close> and \<open>reconstruct\<close>).
\<close>

definition IndexFlatIP :: "vec list \<Rightarrow> vec index_obj" where
  "IndexFlatIP xb =
     \<lparr>reconstruct = (\<lambda>i. if 0 \<le> i \<and> i < int (length xb) then Inr (xb ! nat i)
                          else Inl OutOfRange),
      search = (\<lambda>q k. Inr (flat_search xb q k))\<rparr>"

text \<open>
  The rule of section 4.4 of the specification for the hits kept after the search:
  the first hit is dropped if and only if it is the query's own row position, and the
  top \<open>k\<close> of the rest are returned. It is compared with \<open>recommended_indices\<close> below.
\<close>

definition discard_self_spec :: "int \<Rightarrow> int list \<Rightarrow> int \<Rightarrow> int list" where
  "discard_self_spec movie_index hits k =
     take (nat k) (case hits of [] \<Rightarrow> [] | h # rest \<Rightarrow> if h = movie_index then rest else hits)"

text \<open>
  What the search must deliver for the first hit to be the queried movie: distinct
  positions of the frame, the first of them a row with the queried title.
\<close>

definition self_first :: "string \<Rightarrow> dataframe \<Rightarrow> int list \<Rightarrow> bool" where
  "self_first movie df hits =
     (distinct hits \<and> list_all (\<lambda>i. 0 \<le> i \<and> i < int (length df)) hits \<and>
      (case hits of [] \<Rightarrow> True | h # rest \<Rightarrow> title (df ! nat h) = movie))"

section \<open>The build path of \<open>data_updater.py\<close>\<close>

subsection \<open>Strings\<close>

text \<open>
  \<open>str.split()\<close> without arguments: the maximal runs of characters that are not
  whitespace. Strings are byte strings here, and the whitespace is that of ASCII.
\<close>

definition is_space :: "char \<Rightarrow> bool" where
  "is_space c = (c \<in> set [CHR '' '', CHR 0x09, CHR 0x0A, CHR 0x0B, CHR 0x0C, CHR 0x0D,
                          CHR 0x1C, CHR 0x1D, CHR 0x1E, CHR 0x1F])"

fun split_acc :: "string \<Rightarrow> string \<Rightarrow> string list" where
  "split_acc [] cur = (if cur = [] then [] else [cur])"
| "split_acc (c # cs) cur =
     (if is_space c then (if cur = [] then split_acc cs [] else cur # split_acc cs [])
      else split_acc cs (cur @ [c]))"

definition py_split :: "string \<Rightarrow> string list" where
  "py_split s = split_acc s []"

text \<open>\<open>" ".join(xs)\<close>.\<close>

fun join_space :: "string list \<Rightarrow> string" where
  "join_space [] = []"
| "join_space [x] = x"
| "join_space (x # y # ys) = x @ '' '' @ join_space (y # ys)"

text \<open>\<open>x.lower()\<close>, on the letters of ASCII.\<close>

definition lower_char :: "char \<Rightarrow> char" where
  "lower_char c =
     (let n = (of_char c :: nat) in if 65 \<le> n \<and> n \<le> 90 then char_of (n + 32) else c)"

definition lower :: "string \<Rightarrow> string" where
  "lower s = map lower_char s"

text \<open>\<open>i.replace(" ", "")\<close>.\<close>

definition remove_spaces :: "string \<Rightarrow> string" where
  "remove_spaces s = filter (\<lambda>c. c \<noteq> CHR '' '') s"

text \<open>A function applied to the items of a list in turn, stopping at the first raise.\<close>

fun map_result :: "('a \<Rightarrow> error + 'b) \<Rightarrow> 'a list \<Rightarrow> error + 'b list" where
  "map_result f [] = Inr []"
| "map_result f (x # xs) =
     (case f x of
        Inl e \<Rightarrow> Inl e
      | Inr y \<Rightarrow> (case map_result f xs of Inl e \<Rightarrow> Inl e | Inr ys \<Rightarrow> Inr (y # ys)))"

subsection \<open>\<open>preprocess_data\<close>\<close>

text \<open>
  The cells of the raw frame are Python values: \<open>None\<close> (or NaN), a string, a number or
  a list. A raw row has its index label and the seven columns that
  \<open>fetch_movie_details\<close> fills.
\<close>

datatype pyval = PNone | PStr string | PInt int | PList "pyval list"

record raw_row =
  r_label :: int
  r_movie_id :: pyval
  r_title :: pyval
  r_overview :: pyval
  r_genres :: pyval
  r_keywords :: pyval
  r_cast :: pyval
  r_crew :: pyval

record tagged_row =
  t_label :: int
  t_movie_id :: pyval
  t_title :: pyval
  tags :: string

text \<open>\<open>df.dropna()\<close>: a row with a missing value in any column is removed.\<close>

definition has_na :: "raw_row \<Rightarrow> bool" where
  "has_na r = (PNone \<in> set [r_movie_id r, r_title r, r_overview r, r_genres r,
                              r_keywords r, r_cast r, r_crew r])"

definition dropna :: "raw_row list \<Rightarrow> raw_row list" where
  "dropna df = filter (\<lambda>r. \<not> has_na r) df"

text \<open>\<open>lambda x: x.split() if isinstance(x, str) else []\<close>.\<close>

definition split_overview :: "pyval \<Rightarrow> string list" where
  "split_overview x = (case x of PStr s \<Rightarrow> py_split s | _ \<Rightarrow> [])"

text \<open>
  \<open>lambda x: [i.replace(" ", "") for i in x]\<close>: \<open>x\<close> is iterated (a string gives its
  characters, a number or \<open>None\<close> cannot be iterated), and every item needs the method
  \<open>replace\<close>.
\<close>

definition replace_item :: "pyval \<Rightarrow> error + string" where
  "replace_item i = (case i of PStr s \<Rightarrow> Inr (remove_spaces s) | _ \<Rightarrow> Inl AttributeError)"

definition strip_names :: "pyval \<Rightarrow> error + string list" where
  "strip_names x =
     (case x of
        PList xs \<Rightarrow> map_result replace_item xs
      | PStr s \<Rightarrow> Inr (map (\<lambda>c. remove_spaces [c]) s)
      | _ \<Rightarrow> Inl TypeError)"

text \<open>The sum of two columns of lists: the lists are appended row by row.\<close>

definition add_columns :: "'a list list \<Rightarrow> 'a list list \<Rightarrow> 'a list list" where
  "add_columns xs ys = map (\<lambda>(x, y). x @ y) (zip xs ys)"

text \<open>
  \<open>stem\<close>: the stemmer of NLTK is a parameter \<open>ps\<close>, applied to each token of the text.
\<close>

definition stem :: "(string \<Rightarrow> string) \<Rightarrow> string \<Rightarrow> string" where
  "stem ps text = join_space (map ps (py_split text))"

definition preprocess_data :: "(string \<Rightarrow> string) \<Rightarrow> raw_row list \<Rightarrow> error + tagged_row list" where
  "preprocess_data ps df0 =
     (let df = dropna df0;
          overview = map (\<lambda>r. split_overview (r_overview r)) df
      in case map_result strip_names (map r_genres df) of
           Inl e \<Rightarrow> Inl e
         | Inr genres \<Rightarrow>
        (case map_result strip_names (map r_keywords df) of
           Inl e \<Rightarrow> Inl e
         | Inr keywords \<Rightarrow>
        (case map_result strip_names (map r_cast df) of
           Inl e \<Rightarrow> Inl e
         | Inr cast \<Rightarrow>
        (case map_result strip_names (map r_crew df) of
           Inl e \<Rightarrow> Inl e
         | Inr crew \<Rightarrow>
             (let tag_lists =
                    add_columns (add_columns (add_columns (add_columns overview genres)
                      keywords) cast) crew;
                  tag_col = map (\<lambda>x. stem ps (lower (join_space x))) tag_lists
              in Inr (map (\<lambda>(r, t). \<lparr>t_label = r_label r, t_movie_id = r_movie_id r,
                                         t_title = r_title r, tags = t\<rparr>)
                        (zip df tag_col)))))))"

text \<open>
  The tag string of one record as section 4.1 of the specification words it: a missing
  or non-string overview is an empty token sequence, an absent field contributes
  nothing, the five token sequences are concatenated in their fixed order, joined,
  lower-cased and stemmed. It is compared with \<open>preprocess_data\<close> below.
\<close>

definition names_spec :: "pyval \<Rightarrow> string list" where
  "names_spec x =
     (case x of
        PList xs \<Rightarrow> concat (map (\<lambda>i. case i of PStr s \<Rightarrow> [remove_spaces s] | _ \<Rightarrow> []) xs)
      | _ \<Rightarrow> [])"

definition tag_string_spec :: "(string \<Rightarrow> string) \<Rightarrow> raw_row \<Rightarrow> string" where
  "tag_string_spec ps r =
     stem ps (lower (join_space
       (split_overview (r_overview r) @ names_spec (r_genres r) @ names_spec (r_keywords r) @
        names_spec (r_cast r) @ names_spec (r_crew r))))"

definition tagged_spec :: "(string \<Rightarrow> string) \<Rightarrow> raw_row \<Rightarrow> tagged_row" where
  "tagged_spec ps r =
     \<lparr>t_label = r_label r, t_movie_id = r_movie_id r, t_title = r_title r,
      tags = tag_string_spec ps r\<rparr>"

text \<open>A name column is well formed when it is a list of strings.\<close>

definition is_str :: "pyval \<Rightarrow> bool" where
  "is_str x = (case x of PStr s \<Rightarrow> True | _ \<Rightarrow> False)"

definition is_str_list :: "pyval \<Rightarrow> bool" where
  "is_str_list x = (case x of PList xs \<Rightarrow> list_all is_str xs | _ \<Rightarrow> False)"

definition names_ok :: "raw_row \<Rightarrow> bool" where
  "names_ok r = (is_str_list (r_genres r) \<and> is_str_list (r_keywords r) \<and>
                 is_str_list (r_cast r) \<and> is_str_list (r_crew r))"

subsection \<open>\<open>build_faiss_index\<close>\<close>

text \<open>
  \<open>MovieDataUpdater.__init__\<close> creates \<open>CountVectorizer(max_features=5000,
  stop_words='english')\<close>. The vectorizer is a record of these two settings; the English
  stop-word list of scikit-learn is a parameter.
\<close>

record count_vectorizer =
  max_features :: nat
  stop_words :: "string list"

definition MovieDataUpdater_cv :: "string list \<Rightarrow> count_vectorizer" where
  "MovieDataUpdater_cv english = \<lparr>max_features = 5000, stop_words = english\<rparr>"

text \<open>
  \<open>CountVectorizer.fit_transform\<close> is code of scikit-learn and not of the source files. It
  is modelled from the contract that section 4.2 of the specification gives. The terms
  of a tag string are its whitespace-separated tokens.
\<close>

text \<open>
  Modelled from the spec: the document frequency of a term, the number of tag strings
  it occurs in (missing library code: the counting of \<open>CountVectorizer.fit\<close>).
\<close>

definition doc_freq :: "string list \<Rightarrow> string \<Rightarrow> nat" where
  "doc_freq docs t = length (filter (\<lambda>d. t \<in> set (py_split d)) docs)"

text \<open>
  Modelled from the spec: the terms of the corpus after removing the stop-word list
  (missing library code: the stop-word filter of \<open>CountVectorizer.fit\<close>).
\<close>

definition candidates :: "count_vectorizer \<Rightarrow> string list \<Rightarrow> string list" where
  "candidates cv docs =
     filter (\<lambda>t. t \<notin> set (stop_words cv)) (remdups (concat (map py_split docs)))"

text \<open>
  Modelled from the spec: \<open>fit(tag_strings)\<close> learns a vocabulary of at most N terms by
  descending document frequency after removing the stop-word list (missing library code:
  \<open>CountVectorizer.fit\<close>). Terms of equal document frequency keep the order they have
  among the candidates.
\<close>

definition fit :: "count_vectorizer \<Rightarrow> string list \<Rightarrow> string list" where
  "fit cv docs =
     take (max_features cv) (sort_key (\<lambda>t. - int (doc_freq docs t)) (candidates cv docs))"

text \<open>
  Modelled from the spec: \<open>transform(tag_strings)\<close> maps each tag string to a fixed-width
  count row over the learned vocabulary; a term outside the vocabulary contributes
  nothing (missing library code: \<open>CountVectorizer.transform\<close>).
\<close>

definition transform :: "string list \<Rightarrow> string list \<Rightarrow> vec list" where
  "transform vocabulary docs =
     map (\<lambda>d. map (\<lambda>t. real (count_list (py_split d) t)) vocabulary) docs"

text \<open>
  \<open>faiss.normalize_L2\<close> is code of the FAISS library and not of the source files. It is
  modelled from sections 3 and 4.2 of the specification. Arithmetic is that of the real
  numbers (the library works in 32-bit floating point); a division by zero is an error
  of the model.
\<close>

text \<open>
  Modelled from the spec: the Euclidean norm of a row (missing library code: the norm
  computed by \<open>faiss.normalize_L2\<close>).
\<close>

definition l2_norm :: "vec \<Rightarrow> real" where
  "l2_norm v = sqrt (sum_list (map (\<lambda>x. x * x) v))"

text \<open>
  Modelled from the spec: the division of an entry by the norm, which must not be a
  division by zero (missing library code: the scaling done by \<open>faiss.normalize_L2\<close>).
\<close>

definition divide_by :: "real \<Rightarrow> real \<Rightarrow> error + real" where
  "divide_by n x = (if n = 0 then Inl DivisionByZero else Inr (x / n))"

text \<open>
  Modelled from the spec: a row is divided by its Euclidean norm; the normalized zero
  vector is the zero vector itself (missing library code: \<open>faiss.normalize_L2\<close> on one
  row).
\<close>

definition normalize_row :: "vec \<Rightarrow> error + vec" where
  "normalize_row v = (if l2_norm v = 0 then Inr v else map_result (divide_by (l2_norm v)) v)"

text \<open>
  Modelled from the spec: L2 normalization of the matrix, row by row (missing library
  code: \<open>faiss.normalize_L2\<close>).
\<close>

definition normalize_L2 :: "vec list \<Rightarrow> error + vec list" where
  "normalize_L2 m = map_result normalize_row m"

text \<open>
  \<open>build_faiss_index\<close>: vectorize the tags, normalize the rows, create the index and add
  the rows to it; the index and the rows are returned.
\<close>

definition build_faiss_index ::
  "count_vectorizer \<Rightarrow> string list \<Rightarrow> error + (vec index_obj \<times> vec list)" where
  "build_faiss_index cv tag_col =
     (let vectors = transform (fit cv tag_col) tag_col
      in case normalize_L2 vectors of
           Inl e \<Rightarrow> Inl e
         | Inr normalized \<Rightarrow> Inr (IndexFlatIP normalized, normalized))"

section \<open>Example corpora\<close>

text \<open>Three movies with distinct titles, labels equal to positions, unit vectors.\<close>

definition corpus3 :: dataframe where
  "corpus3 = [\<lparr>idx_label = 0, movie_id = 11, title = ''A''\<rparr>,
              \<lparr>idx_label = 1, movie_id = 12, title = ''B''\<rparr>,
              \<lparr>idx_label = 2, movie_id = 13, title = ''C''\<rparr>]"

definition vectors3 :: "vec list" where
  "vectors3 = [[1, 0], [3/5, 4/5], [0, 1]]"

text \<open>Two movies that share a title.\<close>

definition remake_corpus :: dataframe where
  "remake_corpus = [\<lparr>idx_label = 0, movie_id = 21, title = ''A''\<rparr>,
                    \<lparr>idx_label = 1, movie_id = 22, title = ''A''\<rparr>]"

definition remake_vectors :: "vec list" where
  "remake_vectors = [[1, 0], [3/5, 4/5]]"

text \<open>Two movies with distinct titles and the same vector.\<close>

definition twin_corpus :: dataframe where
  "twin_corpus = [\<lparr>idx_label = 0, movie_id = 31, title = ''A''\<rparr>,
                  \<lparr>idx_label = 1, movie_id = 32, title = ''B''\<rparr>]"

definition twin_vectors :: "vec list" where
  "twin_vectors = [[1, 0], [1, 0]]"

text \<open>
  An index object for the same two vectors whose search lists the two rows, which have
  equal scores for every query, in descending order of position.
\<close>

definition twin_index_descending :: "vec index_obj" where
  "twin_index_descending =
     \<lparr>reconstruct = reconstruct (IndexFlatIP twin_vectors),
      search = (\<lambda>q k. Inr (take (nat k) [1, 0]))\<rparr>"

text \<open>
  A frame whose labels are not its positions (the row labelled 1 is gone), next to an
  index of its two vectors.
\<close>

definition gap_corpus :: dataframe where
  "gap_corpus = [\<lparr>idx_label = 0, movie_id = 41, title = ''A''\<rparr>,
                 \<lparr>idx_label = 2, movie_id = 43, title = ''C''\<rparr>]"

definition gap_vectors :: "vec list" where
  "gap_vectors = [[1, 0], [0, 1]]"

text \<open>A raw record whose overview is missing, and one whose overview is a number.\<close>

definition no_overview :: raw_row where
  "no_overview = \<lparr>r_label = 0, r_movie_id = PInt 7, r_title = PStr ''Heat'',
                   r_overview = PNone, r_genres = PList [PStr ''Science Fiction''],
                   r_keywords = PList [], r_cast = PList [PStr ''Al Pacino''],
                   r_crew = PList []\<rparr>"

definition odd_overview :: raw_row where
  "odd_overview = \<lparr>r_label = 1, r_movie_id = PInt 8, r_title = PStr ''Ran'',
                    r_overview = PInt 5, r_genres = PList [PStr ''Science Fiction''],
                    r_keywords = PList [], r_cast = PList [PStr ''Al Pacino''],
                    r_crew = PList []\<rparr>"

text \<open>A raw record with a genre whose name is missing.\<close>

definition null_genre :: raw_row where
  "null_genre = \<lparr>r_label = 2, r_movie_id = PInt 9, r_title = PStr ''Ida'',
                  r_overview = PStr ''A nun'', r_genres = PList [PNone],
                  r_keywords = PList [], r_cast = PList [], r_crew = PList []\<rparr>"

text \<open>A stemmer that leaves every token as it is, and a one-word stop list.\<close>

definition keep_token :: "string \<Rightarrow> string" where
  "keep_token t = t"

definition tiny_cv :: count_vectorizer where
  "tiny_cv = \<lparr>max_features = 2, stop_words = [''the'']\<rparr>"

text \<open>A TMDb that has no poster for any movie.\<close>

definition no_posters :: tmdb where
  "no_posters m i = Body None"

section \<open>Facts about the slice and the loop\<close>

lemma py_slice_from_1: "0 \<le> k \<Longrightarrow> py_slice xs 1 (k + 1) = take (nat k) (tl xs)"
proof (cases xs)
  case Nil
  then show ?thesis by (simp add: py_slice_def slice_bound_def)
next
  case (Cons a list)
  assume k: "0 \<le> k"
  have "nat (min (k + 1) (1 + int (length list)) - 1) = min (nat k) (length list)"
    using k by linarith
  moreover have "take (min (nat k) (length list)) list = take (nat k) list"
    by (simp add: min_def)
  moreover have "py_slice xs 1 (k + 1) = take (nat (min (k + 1) (1 + int (length list)) - 1)) list"
    using Cons k by (simp add: py_slice_def slice_bound_def Let_def)
  ultimately show ?thesis
    using Cons by simp
qed

lemma py_slice_1_take: "\<exists>n. py_slice xs 1 e = take n (tl xs)"
  by (cases xs) (auto simp: py_slice_def slice_bound_def Let_def)

lemma set_py_slice: "set (py_slice xs 1 e) \<subseteq> set (tl xs)"
proof -
  obtain n where "py_slice xs 1 e = take n (tl xs)" using py_slice_1_take by blast
  then show ?thesis by (simp add: set_take_subset)
qed

lemma length_py_slice: "length (py_slice xs 1 e) \<le> length xs - 1"
proof -
  obtain n where "py_slice xs 1 e = take n (tl xs)" using py_slice_1_take by blast
  then show ?thesis by simp
qed

lemma collect_lengths:
  "collect w df is ms ps = Inr (ms', ps') \<Longrightarrow>
     length ms' = length ms + length is \<and> length ps' = length ps + length is"
  by (induction "is" arbitrary: ms ps) (auto split: sum.splits)

lemma collect_titles:
  "collect w df is ms ps = Inr (ms', ps') \<Longrightarrow>
     set ms' \<subseteq> set ms \<union> {title r |r i. i \<in> set is \<and> iloc df i = Inr r}"
proof (induction "is" arbitrary: ms ps)
  case Nil
  then show ?case by simp
next
  case (Cons i rest)
  then show ?case by (fastforce split: sum.splits)
qed

lemma iloc_in_range: "0 \<le> i \<Longrightarrow> i < int (length df) \<Longrightarrow> iloc df i = Inr (df ! nat i)"
  by (simp add: iloc_def)

lemma try_block_Inr:
  assumes "try_block w movie df index k = Inr (ms, ps)"
  shows "(ms = [] \<and> ps = []) \<or>
     (\<exists>q hits. movie_indices df movie \<noteq> [] \<and>
        reconstruct index (hd (movie_indices df movie)) = Inr q \<and>
        search index q (k + 1) = Inr hits \<and>
        collect w df (recommended_indices hits k) [] [] = Inr (ms, ps))"
  using assms by (auto simp: try_block_def Let_def split: if_splits sum.splits)

section \<open>Properties of \<open>recommend\<close>\<close>

text \<open>
  C1, as the code has it: when the titles of the frame are pairwise distinct and the
  search for the queried movie's vector returns distinct positions of the frame with a
  row of the queried title first, the titles returned by \<open>recommend\<close> do not contain
  the queried title, for every \<open>k\<close>.
\<close>

theorem recommend_excludes_query:
  assumes titles: "distinct (map title df)"
    and contract: "\<And>q hits. reconstruct index (hd (movie_indices df movie)) = Inr q \<Longrightarrow>
        search index q (k + 1) = Inr hits \<Longrightarrow> self_first movie df hits"
  shows "movie \<notin> set (fst (fst (recommend w movie df index k)))"
proof (cases "try_block w movie df index k")
  case (Inl e)
  then show ?thesis by (simp add: recommend_def)
next
  case (Inr r)
  obtain ms ps where r: "r = (ms, ps)" by (cases r)
  from Inr r have res: "fst (fst (recommend w movie df index k)) = ms"
    by (simp add: recommend_def)
  from try_block_Inr[OF Inr[unfolded r]] show ?thesis
  proof
    assume "ms = [] \<and> ps = []"
    with res show ?thesis by simp
  next
    assume "\<exists>q hits. movie_indices df movie \<noteq> [] \<and>
        reconstruct index (hd (movie_indices df movie)) = Inr q \<and>
        search index q (k + 1) = Inr hits \<and>
        collect w df (recommended_indices hits k) [] [] = Inr (ms, ps)"
    then obtain q hits where q: "reconstruct index (hd (movie_indices df movie)) = Inr q"
      and h: "search index q (k + 1) = Inr hits"
      and c: "collect w df (recommended_indices hits k) [] [] = Inr (ms, ps)"
      by blast
    from contract[OF q h] have sf: "self_first movie df hits" .
    have "movie \<notin> set ms"
    proof
      assume "movie \<in> set ms"
      with collect_titles[OF c] obtain r i where i: "i \<in> set (recommended_indices hits k)"
        and ri: "iloc df i = Inr r" and tr: "title r = movie"
        by auto
      from i have itl: "i \<in> set (tl hits)"
        using set_py_slice[of hits "k + 1"] by (auto simp: recommended_indices_def)
      then obtain h0 rest where hits: "hits = h0 # rest" and irest: "i \<in> set rest"
        by (cases hits) auto
      from sf hits have d: "h0 \<notin> set rest" and rng: "\<forall>j \<in> set hits. 0 \<le> j \<and> j < int (length df)"
        and self: "title (df ! nat h0) = movie"
        by (auto simp: self_first_def list_all_iff)
      from rng hits irest have ir: "0 \<le> i" "i < int (length df)" and hr: "0 \<le> h0" "h0 < int (length df)"
        by auto
      from ri ir have "r = df ! nat i" by (simp add: iloc_in_range)
      with tr self have "title (df ! nat i) = title (df ! nat h0)" by simp
      then have "map title df ! nat i = map title df ! nat h0"
        using ir hr by simp
      moreover have "nat i < length (map title df)" "nat h0 < length (map title df)"
        using ir hr by simp_all
      ultimately have "nat i = nat h0"
        using nth_eq_iff_index_eq[OF titles] by blast
      with ir hr have "i = h0" by simp
      with d irest show False by simp
    qed
    with res show ?thesis by simp
  qed
qed

theorem recommend_excludes_query_witness:
  "distinct (map title corpus3) \<and>
   reconstruct (IndexFlatIP vectors3) (hd (movie_indices corpus3 ''A'')) = Inr [1, 0] \<and>
   search (IndexFlatIP vectors3) [1, 0] (1 + 1) = Inr [0, 1] \<and>
   self_first ''A'' corpus3 [0, 1] \<and>
   fst (fst (recommend no_posters ''A'' corpus3 (IndexFlatIP vectors3) 1)) = [''B''] \<and>
   ''A'' \<notin> set (fst (fst (recommend no_posters ''A'' corpus3 (IndexFlatIP vectors3) 1)))"
proof -
  have t: "distinct (map title corpus3)" by (simp add: corpus3_def)
  have r: "reconstruct (IndexFlatIP vectors3) (hd (movie_indices corpus3 ''A'')) = Inr [1, 0]"
    by (simp add: IndexFlatIP_def vectors3_def movie_indices_def corpus3_def)
  have s: "search (IndexFlatIP vectors3) [1, 0] (1 + 1) = Inr [0, 1]"
    by (simp add: IndexFlatIP_def flat_search_def vectors3_def inner_product_def upt_rec)
  have sf: "self_first ''A'' corpus3 [0, 1]"
    by (simp add: self_first_def corpus3_def)
  have c: "\<And>q hits. reconstruct (IndexFlatIP vectors3) (hd (movie_indices corpus3 ''A'')) = Inr q \<Longrightarrow>
        search (IndexFlatIP vectors3) q (1 + 1) = Inr hits \<Longrightarrow> self_first ''A'' corpus3 hits"
    using r s sf by simp
  have v: "fst (fst (recommend no_posters ''A'' corpus3 (IndexFlatIP vectors3) 1)) = [''B'']"
    by code_simp
  from recommend_excludes_query[OF t c, where w = no_posters] t r s sf v show ?thesis by simp
qed

text \<open>
  C1 as stated fails where two movies share a title: the query resolves to the first
  of them, the search puts that row first, and the slice keeps the second, whose title
  is the queried one.
\<close>

theorem recommend_returns_query_title:
  "''A'' \<in> title ` set remake_corpus \<and>
   fst (fst (recommend no_posters ''A'' remake_corpus (IndexFlatIP remake_vectors) 1)) = [''A'']"
  by code_simp

text \<open>
  C2 asks that the first hit of the search be dropped only when it is the query's own
  row. The code drops the first hit whatever it is. With two movies of equal vectors the
  two rows tie, and for one of the two queries the first hit is the other movie: the
  code drops it and returns the queried movie itself, where the rule of section 4.4
  returns the other movie. With the tied rows in ascending order this is the query for
  the second movie, with the tied rows in descending order the query for the first.
\<close>

theorem first_hit_dropped_when_not_query:
  "hd (movie_indices twin_corpus ''B'') = 1 \<and>
   search (IndexFlatIP twin_vectors) [1, 0] (1 + 1) = Inr [0, 1] \<and>
   recommended_indices [0, 1] 1 = [1] \<and>
   discard_self_spec 1 [0, 1] 1 = [0] \<and>
   recommend no_posters ''B'' twin_corpus (IndexFlatIP twin_vectors) 1 = (([''B''], [None]), []) \<and>
   hd (movie_indices twin_corpus ''A'') = 0 \<and>
   search twin_index_descending [1, 0] (1 + 1) = Inr [1, 0] \<and>
   recommended_indices [1, 0] 1 = [0] \<and>
   discard_self_spec 0 [1, 0] 1 = [1] \<and>
   recommend no_posters ''A'' twin_corpus twin_index_descending 1 = (([''A''], [None]), [])"
  by code_simp

text \<open>
  C4, as the code has it: when the queried title is in the frame and \<open>reconstruct\<close>
  or \<open>search\<close> raises, \<open>recommend\<close> catches the exception, shows it with \<open>st.error\<close>
  and returns the two empty lists.
\<close>

theorem internal_error_yields_empty_result:
  assumes "movie_indices df movie \<noteq> []"
    and "reconstruct index (hd (movie_indices df movie)) = Inl e \<or>
         (\<exists>q. reconstruct index (hd (movie_indices df movie)) = Inr q \<and>
              search index q (k + 1) = Inl e)"
  shows "recommend w movie df index k = (([], []), [e])"
  using assms by (auto simp: recommend_def try_block_def)

theorem internal_error_yields_empty_result_witness:
  "movie_indices gap_corpus ''C'' \<noteq> [] \<and>
   reconstruct (IndexFlatIP gap_vectors) (hd (movie_indices gap_corpus ''C'')) = Inl OutOfRange \<and>
   recommend no_posters ''C'' gap_corpus (IndexFlatIP gap_vectors) 5 = (([], []), [OutOfRange])"
proof -
  have a: "movie_indices gap_corpus ''C'' \<noteq> []"
    by (simp add: movie_indices_def gap_corpus_def)
  have r: "reconstruct (IndexFlatIP gap_vectors) (hd (movie_indices gap_corpus ''C'')) = Inl OutOfRange"
    by (simp add: IndexFlatIP_def gap_vectors_def movie_indices_def gap_corpus_def)
  from internal_error_yields_empty_result[OF a disjI1, OF r, where w = no_posters and k = 5] a r
  show ?thesis by simp
qed

text \<open>
  C4 as stated fails on a frame whose labels are not its positions: the label of the
  queried movie is no position of the index, \<open>reconstruct\<close> fails, and \<open>recommend\<close>
  returns the same two empty lists as for a title it does not know.
\<close>

theorem desynchronised_index_gives_empty_result:
  "hd (movie_indices gap_corpus ''C'') = 2 \<and>
   reconstruct (IndexFlatIP gap_vectors) 2 = Inl OutOfRange \<and>
   fst (recommend no_posters ''C'' gap_corpus (IndexFlatIP gap_vectors) 5) = ([], []) \<and>
   fst (recommend no_posters ''Z'' gap_corpus (IndexFlatIP gap_vectors) 5) = ([], [])"
  by code_simp

text \<open>
  C8: for a title that no row of the frame has, \<open>recommend\<close> returns two empty lists
  and shows no error, whatever the index and \<open>k\<close> are.
\<close>

theorem recommend_unknown_title:
  "movie \<notin> title ` set df \<Longrightarrow> recommend w movie df index k = (([], []), [])"
proof -
  assume "movie \<notin> title ` set df"
  then have "filter (\<lambda>r. title r = movie) df = []"
    by (auto simp: filter_empty_conv)
  then show ?thesis
    by (simp add: recommend_def try_block_def movie_indices_def)
qed

theorem recommend_unknown_title_witness:
  "''Z'' \<notin> title ` set corpus3 \<and>
   recommend no_posters ''Z'' corpus3 (IndexFlatIP vectors3) 5 = (([], []), [])"
proof -
  have a: "''Z'' \<notin> title ` set corpus3" by (simp add: corpus3_def)
  from recommend_unknown_title[OF a] a show ?thesis by simp
qed

text \<open>
  C10, as the code has it: the two lists returned by \<open>recommend\<close> have the same
  length for every call, and that length is at most \<open>k\<close> when \<open>k\<close> is not negative.
\<close>

theorem recommend_lengths:
  "length (fst (fst (recommend w movie df index k))) =
     length (snd (fst (recommend w movie df index k))) \<and>
   (0 \<le> k \<longrightarrow> int (length (fst (fst (recommend w movie df index k)))) \<le> k)"
proof (cases "try_block w movie df index k")
  case (Inl e)
  then show ?thesis by (simp add: recommend_def)
next
  case (Inr r)
  obtain ms ps where r: "r = (ms, ps)" by (cases r)
  from Inr r have res: "recommend w movie df index k = ((ms, ps), [])"
    by (simp add: recommend_def)
  from try_block_Inr[OF Inr[unfolded r]] show ?thesis
  proof
    assume "ms = [] \<and> ps = []"
    with res show ?thesis by simp
  next
    assume "\<exists>q hits. movie_indices df movie \<noteq> [] \<and>
        reconstruct index (hd (movie_indices df movie)) = Inr q \<and>
        search index q (k + 1) = Inr hits \<and>
        collect w df (recommended_indices hits k) [] [] = Inr (ms, ps)"
    then obtain hits where c: "collect w df (recommended_indices hits k) [] [] = Inr (ms, ps)"
      by blast
    from collect_lengths[OF c]
    have l: "length ms = length (recommended_indices hits k)" "length ps = length ms" by simp_all
    have "0 \<le> k \<Longrightarrow> length (recommended_indices hits k) \<le> nat k"
      by (simp add: recommended_indices_def py_slice_from_1)
    with l res show ?thesis by auto
  qed
qed

theorem recommend_lengths_witness:
  "(0::int) \<le> 1 \<and>
   fst (recommend no_posters ''A'' corpus3 (IndexFlatIP vectors3) 1) = ([''B''], [None]) \<and>
   length (fst (fst (recommend no_posters ''A'' corpus3 (IndexFlatIP vectors3) 1))) =
     length (snd (fst (recommend no_posters ''A'' corpus3 (IndexFlatIP vectors3) 1))) \<and>
   int (length (fst (fst (recommend no_posters ''A'' corpus3 (IndexFlatIP vectors3) 1)))) \<le> 1"
proof -
  have v: "fst (recommend no_posters ''A'' corpus3 (IndexFlatIP vectors3) 1) = ([''B''], [None])"
    by code_simp
  from recommend_lengths[of no_posters "''A''" corpus3 "IndexFlatIP vectors3" 1] v
  show ?thesis by simp
qed

text \<open>
  C10 as stated fails for a negative \<open>k\<close>: the lists are empty, and their length 0
  is above \<open>k = -1\<close>.
\<close>

theorem recommend_negative_k:
  "fst (recommend no_posters ''A'' corpus3 (IndexFlatIP vectors3) (- 1)) = ([], []) \<and>
   \<not> int (length (fst (fst (recommend no_posters ''A'' corpus3 (IndexFlatIP vectors3) (- 1))))) \<le> - 1"
proof -
  have v: "fst (recommend no_posters ''A'' corpus3 (IndexFlatIP vectors3) (- 1)) = ([], [])"
    by code_simp
  then show ?thesis by simp
qed

section \<open>Properties of the similarity index\<close>

lemma flat_search_sorted:
  "sorted_wrt (\<lambda>a b. inner_product q (xb ! b) < inner_product q (xb ! a) \<or>
        (inner_product q (xb ! a) = inner_product q (xb ! b) \<and> a < b))
     (take n (sort_key (\<lambda>i. (- inner_product q (xb ! i), i)) [0..<length xb]))"
proof -
  let ?f = "\<lambda>i. (- inner_product q (xb ! i), i)"
  let ?L = "sort_key ?f [0..<length xb]"
  have inj: "inj_on ?f (set ?L)" by (rule inj_onI) simp
  have "distinct ?L" by simp
  with inj have "distinct (map ?f ?L)" by (simp add: distinct_map)
  moreover have "sorted (map ?f ?L)" by (rule sorted_sort_key)
  ultimately have "sorted_wrt (<) (map ?f ?L)" by (simp add: strict_sorted_iff)
  then have "sorted_wrt (\<lambda>a b. ?f a < ?f b) ?L" by (simp add: sorted_wrt_map)
  then have "sorted_wrt (\<lambda>a b. inner_product q (xb ! b) < inner_product q (xb ! a) \<or>
        (inner_product q (xb ! a) = inner_product q (xb ! b) \<and> a < b)) ?L"
    by (rule sorted_wrt_mono_rel[rotated]) (auto simp: less_prod_def)
  then show ?thesis by (rule sorted_wrt_take)
qed

lemma flat_search_props:
  "length (flat_search xb q k) = min (nat k) (length xb) \<and> distinct (flat_search xb q k) \<and>
   set (flat_search xb q k) \<subseteq> {i. 0 \<le> i \<and> i < int (length xb)}"
proof -
  let ?L = "sort_key (\<lambda>i. (- inner_product q (xb ! i), i)) [0..<length xb]"
  have "distinct (take (nat k) ?L)" by simp
  then have d: "distinct (flat_search xb q k)"
    by (simp add: flat_search_def distinct_map inj_on_def)
  have "set (take (nat k) ?L) \<subseteq> {0..<length xb}"
    using set_take_subset[of "nat k" ?L] by simp
  then have s: "set (flat_search xb q k) \<subseteq> {i. 0 \<le> i \<and> i < int (length xb)}"
    by (auto simp: flat_search_def)
  have "length (flat_search xb q k) = min (nat k) (length xb)"
    by (simp add: flat_search_def min_def)
  with d s show ?thesis by simp
qed

lemma fetch_poster_loop_ok:
  "\<forall>m i. w m i \<noteq> OtherException \<Longrightarrow> \<exists>p. fetch_poster_loop w m is = Inr p"
  by (induction "is") (auto split: http_outcome.splits option.splits)

lemma collect_ok:
  assumes w: "\<forall>m i. w m i \<noteq> OtherException"
    and "\<forall>i \<in> set is. 0 \<le> i \<and> i < int (length df)"
  shows "\<exists>r. collect w df is ms ps = Inr r"
  using assms(2)
proof (induction "is" arbitrary: ms ps)
  case Nil
  then show ?case by simp
next
  case (Cons i rest)
  obtain p where "fetch_poster w (movie_id (df ! nat i)) = Inr p"
    using fetch_poster_loop_ok[OF w, of "movie_id (df ! nat i)" "[0..<5]"]
    by (auto simp: fetch_poster_def)
  with Cons show ?case by (simp add: iloc_in_range)
qed

text \<open>
  C5: the hits of \<open>search\<close> are ordered by non-increasing inner product with the
  query, and hits of equal score are in ascending order of their row positions, for
  every query vector and every \<open>k\<close>.
\<close>

theorem search_sorted_by_score:
  "\<exists>hits. search (IndexFlatIP xb) q k = Inr hits \<and>
     sorted_wrt (\<lambda>i j. inner_product q (xb ! nat j) < inner_product q (xb ! nat i) \<or>
        (inner_product q (xb ! nat i) = inner_product q (xb ! nat j) \<and> i < j)) hits"
proof -
  have "search (IndexFlatIP xb) q k = Inr (flat_search xb q k)"
    by (simp add: IndexFlatIP_def)
  moreover have "sorted_wrt (\<lambda>i j. inner_product q (xb ! nat j) < inner_product q (xb ! nat i) \<or>
        (inner_product q (xb ! nat i) = inner_product q (xb ! nat j) \<and> i < j)) (flat_search xb q k)"
    using flat_search_sorted[of q xb "nat k"]
    by (simp add: flat_search_def sorted_wrt_map)
  ultimately show ?thesis by blast
qed

theorem search_sorted_by_score_witness:
  "search (IndexFlatIP vectors3) [0, 1] 3 = Inr [2, 1, 0] \<and>
   search (IndexFlatIP twin_vectors) [1, 0] 2 = Inr [0, 1] \<and>
   sorted_wrt (\<lambda>i j. inner_product [0, 1] (vectors3 ! nat j) < inner_product [0, 1] (vectors3 ! nat i) \<or>
        (inner_product [0, 1] (vectors3 ! nat i) = inner_product [0, 1] (vectors3 ! nat j) \<and> i < j))
     [2, 1, 0]"
proof -
  have s: "search (IndexFlatIP vectors3) [0, 1] 3 = Inr [2, 1, 0]"
    by (simp add: IndexFlatIP_def flat_search_def vectors3_def inner_product_def upt_rec)
  have t: "search (IndexFlatIP twin_vectors) [1, 0] 2 = Inr [0, 1]"
    by (simp add: IndexFlatIP_def flat_search_def twin_vectors_def inner_product_def upt_rec)
  from search_sorted_by_score[of vectors3 "[0, 1]" 3] s t show ?thesis by simp
qed

text \<open>
  C3: \<open>search\<close> returns \<open>min k N\<close> distinct valid row positions for every \<open>k\<close>, so at
  most \<open>N\<close> of them when \<open>k\<close> is larger than \<open>N\<close>, and never fails; \<open>recommend\<close> on an
  index of \<open>N\<close> vectors returns at most \<open>N - 1\<close> titles. When the frame has as many rows
  as the index, the label of the queried movie is a position of the index and TMDb
  answers, it returns exactly \<open>min k (N - 1)\<close> titles and shows no error: 2 titles for
  \<open>k = 10\<close> on three movies.
\<close>

theorem search_tolerates_large_k:
  "(\<exists>hits. search (IndexFlatIP xb) q k = Inr hits \<and> length hits = min (nat k) (length xb) \<and>
      distinct hits \<and> (\<forall>i \<in> set hits. 0 \<le> i \<and> i < int (length xb))) \<and>
   length (fst (fst (recommend w movie df (IndexFlatIP xb) k))) \<le> length xb - 1 \<and>
   (movie_indices df movie \<noteq> [] \<and> 0 \<le> hd (movie_indices df movie) \<and>
    hd (movie_indices df movie) < int (length xb) \<and> length df = length xb \<and>
    (\<forall>m i. w m i \<noteq> OtherException) \<and> 0 \<le> k \<longrightarrow>
    snd (recommend w movie df (IndexFlatIP xb) k) = [] \<and>
    length (fst (fst (recommend w movie df (IndexFlatIP xb) k))) = min (nat k) (length xb - 1))"
proof (intro conjI impI)
  show "\<exists>hits. search (IndexFlatIP xb) q k = Inr hits \<and> length hits = min (nat k) (length xb) \<and>
      distinct hits \<and> (\<forall>i \<in> set hits. 0 \<le> i \<and> i < int (length xb))"
    using flat_search_props[of xb q k] by (auto simp: IndexFlatIP_def)
next
  show "length (fst (fst (recommend w movie df (IndexFlatIP xb) k))) \<le> length xb - 1"
  proof (cases "try_block w movie df (IndexFlatIP xb) k")
    case (Inl e)
    then show ?thesis by (simp add: recommend_def)
  next
    case (Inr r)
    obtain ms ps where r: "r = (ms, ps)" by (cases r)
    from Inr r have res: "fst (fst (recommend w movie df (IndexFlatIP xb) k)) = ms"
      by (simp add: recommend_def)
    from try_block_Inr[OF Inr[unfolded r]] have "length ms \<le> length xb - 1"
    proof
      assume "ms = [] \<and> ps = []"
      then show ?thesis by simp
    next
      assume "\<exists>q hits. movie_indices df movie \<noteq> [] \<and>
        reconstruct (IndexFlatIP xb) (hd (movie_indices df movie)) = Inr q \<and>
        search (IndexFlatIP xb) q (k + 1) = Inr hits \<and>
        collect w df (recommended_indices hits k) [] [] = Inr (ms, ps)"
      then obtain q' hits where h: "search (IndexFlatIP xb) q' (k + 1) = Inr hits"
        and c: "collect w df (recommended_indices hits k) [] [] = Inr (ms, ps)"
        by blast
      from h have "hits = flat_search xb q' (k + 1)" by (simp add: IndexFlatIP_def)
      then have "length hits \<le> length xb" using flat_search_props[of xb q' "k + 1"] by simp
      moreover have "length (recommended_indices hits k) \<le> length hits - 1"
        unfolding recommended_indices_def by (rule length_py_slice)
      moreover have "length ms = length (recommended_indices hits k)"
        using collect_lengths[OF c] by simp
      ultimately show ?thesis by simp
    qed
    with res show ?thesis by simp
  qed
next
  assume a: "movie_indices df movie \<noteq> [] \<and> 0 \<le> hd (movie_indices df movie) \<and>
    hd (movie_indices df movie) < int (length xb) \<and> length df = length xb \<and>
    (\<forall>m i. w m i \<noteq> OtherException) \<and> 0 \<le> k"
  let ?q = "xb ! nat (hd (movie_indices df movie))"
  let ?hits = "flat_search xb ?q (k + 1)"
  let ?kept = "recommended_indices ?hits k"
  from a have tb: "try_block w movie df (IndexFlatIP xb) k = collect w df ?kept [] []"
    by (simp add: try_block_def IndexFlatIP_def)
  have kept: "?kept = take (nat k) (tl ?hits)"
    using a by (simp add: recommended_indices_def py_slice_from_1)
  have "set ?kept \<subseteq> set ?hits"
    unfolding kept by (metis set_take_subset list.set_sel(2) subset_iff tl_Nil)
  with flat_search_props[of xb ?q "k + 1"] a
  have "\<forall>i \<in> set ?kept. 0 \<le> i \<and> i < int (length df)" by auto
  from collect_ok[OF _ this, of w "[]" "[]"] a obtain r where c: "collect w df ?kept [] [] = Inr r"
    by blast
  obtain ms ps where r: "r = (ms, ps)" by (cases r)
  from collect_lengths[OF c[unfolded r]] have "length ms = length ?kept" by simp
  also have "\<dots> = min (nat k) (length xb - 1)"
    unfolding kept using flat_search_props[of xb ?q "k + 1"] a by (simp add: nat_add_distrib)
  finally have l: "length ms = min (nat k) (length xb - 1)" .
  from tb c r have res: "recommend w movie df (IndexFlatIP xb) k = ((ms, ps), [])"
    by (simp add: recommend_def)
  from res show "snd (recommend w movie df (IndexFlatIP xb) k) = []" by simp
  from res l show "length (fst (fst (recommend w movie df (IndexFlatIP xb) k))) = min (nat k) (length xb - 1)"
    by simp
qed

theorem search_tolerates_large_k_witness:
  "search (IndexFlatIP vectors3) [1, 0] 10 = Inr [0, 1, 2] \<and>
   movie_indices corpus3 ''A'' \<noteq> [] \<and> hd (movie_indices corpus3 ''A'') = 0 \<and>
   length corpus3 = length vectors3 \<and> (\<forall>m i. no_posters m i \<noteq> OtherException) \<and>
   recommend no_posters ''A'' corpus3 (IndexFlatIP vectors3) 10 = (([''B'', ''C''], [None, None]), []) \<and>
   length (fst (fst (recommend no_posters ''A'' corpus3 (IndexFlatIP vectors3) 10))) = 2"
proof -
  have s: "search (IndexFlatIP vectors3) [1, 0] 10 = Inr [0, 1, 2]"
    by (simp add: IndexFlatIP_def flat_search_def vectors3_def inner_product_def upt_rec)
  have m: "movie_indices corpus3 ''A'' \<noteq> []" "hd (movie_indices corpus3 ''A'') = 0"
    by (simp_all add: movie_indices_def corpus3_def)
  have l: "length corpus3 = length vectors3" "length vectors3 = 3"
    by (simp_all add: corpus3_def vectors3_def)
  have w: "\<forall>m i. no_posters m i \<noteq> OtherException" by (simp add: no_posters_def)
  have v: "recommend no_posters ''A'' corpus3 (IndexFlatIP vectors3) 10 = (([''B'', ''C''], [None, None]), [])"
    by code_simp
  from search_tolerates_large_k[of vectors3 "[1, 0]" 10 no_posters "''A''" corpus3] s m l w v
  show ?thesis by simp
qed

section \<open>Properties of the build path\<close>

lemma map_result_total:
  "\<forall>x \<in> set xs. f x = Inr (g x) \<Longrightarrow> map_result f xs = Inr (map g xs)"
  by (induction xs) auto

lemma replace_items_ok:
  "list_all is_str xs \<Longrightarrow>
     map_result replace_item xs =
       Inr (concat (map (\<lambda>i. case i of PStr s \<Rightarrow> [remove_spaces s] | _ \<Rightarrow> []) xs))"
  by (induction xs) (auto simp: is_str_def replace_item_def split: pyval.splits)

lemma strip_names_ok: "is_str_list x \<Longrightarrow> strip_names x = Inr (names_spec x)"
  by (cases x) (auto simp: is_str_list_def strip_names_def names_spec_def replace_items_ok)

lemma add_columns_map: "add_columns (map f xs) (map g xs) = map (\<lambda>x. f x @ g x) xs"
  by (induction xs) (auto simp: add_columns_def)

lemma zip_map_same: "map (\<lambda>(r, t). h r t) (zip xs (map g xs)) = map (\<lambda>r. h r (g r)) xs"
  by (induction xs) auto

text \<open>
  C9, as the code has it: records with a missing value in any column are dropped
  before the tags are built. When the name columns of the remaining records are lists
  of strings, \<open>preprocess_data\<close> does not raise and yields, for each of these records in
  order, the tag string of the specification; an overview that is present and not a
  string contributes no token.
\<close>

theorem preprocess_data_tags:
  assumes "\<forall>r \<in> set (dropna df). names_ok r"
  shows "preprocess_data ps df = Inr (map (tagged_spec ps) (dropna df)) \<and>
     set (dropna df) = {r \<in> set df. \<not> has_na r} \<and>
     (\<forall>r \<in> set (dropna df). \<not> is_str (r_overview r) \<longrightarrow>
        tags (tagged_spec ps r) =
          stem ps (lower (join_space (names_spec (r_genres r) @ names_spec (r_keywords r) @
            names_spec (r_cast r) @ names_spec (r_crew r)))))"
proof (intro conjI)
  let ?d = "dropna df"
  from assms have g: "map_result strip_names (map r_genres ?d) = Inr (map names_spec (map r_genres ?d))"
    by (intro map_result_total) (auto simp: names_ok_def strip_names_ok)
  from assms have k: "map_result strip_names (map r_keywords ?d) = Inr (map names_spec (map r_keywords ?d))"
    by (intro map_result_total) (auto simp: names_ok_def strip_names_ok)
  from assms have c: "map_result strip_names (map r_cast ?d) = Inr (map names_spec (map r_cast ?d))"
    by (intro map_result_total) (auto simp: names_ok_def strip_names_ok)
  from assms have w: "map_result strip_names (map r_crew ?d) = Inr (map names_spec (map r_crew ?d))"
    by (intro map_result_total) (auto simp: names_ok_def strip_names_ok)
  show "preprocess_data ps df = Inr (map (tagged_spec ps) (dropna df))"
    unfolding preprocess_data_def Let_def g k c w
    by (simp add: add_columns_map zip_map_same tagged_spec_def tag_string_spec_def o_def)
  show "set (dropna df) = {r \<in> set df. \<not> has_na r}"
    by (auto simp: dropna_def)
  show "\<forall>r \<in> set (dropna df). \<not> is_str (r_overview r) \<longrightarrow>
        tags (tagged_spec ps r) =
          stem ps (lower (join_space (names_spec (r_genres r) @ names_spec (r_keywords r) @
            names_spec (r_cast r) @ names_spec (r_crew r))))"
    by (auto simp: tagged_spec_def tag_string_spec_def split_overview_def is_str_def
        split: pyval.splits)
qed

theorem preprocess_data_tags_witness:
  "dropna [no_overview, odd_overview] = [odd_overview] \<and>
   names_ok odd_overview \<and>
   \<not> is_str (r_overview odd_overview) \<and>
   preprocess_data keep_token [no_overview, odd_overview] =
     Inr [\<lparr>t_label = 1, t_movie_id = PInt 8, t_title = PStr ''Ran'',
           tags = ''sciencefiction alpacino''\<rparr>]"
proof -
  have d: "dropna [no_overview, odd_overview] = [odd_overview]"
    by (simp add: dropna_def has_na_def no_overview_def odd_overview_def)
  have n: "\<forall>r \<in> set (dropna [no_overview, odd_overview]). names_ok r"
    unfolding d by (simp add: names_ok_def is_str_list_def is_str_def odd_overview_def)
  have o: "\<not> is_str (r_overview odd_overview)"
    by (simp add: is_str_def odd_overview_def)
  have t: "tagged_spec keep_token odd_overview =
     \<lparr>t_label = 1, t_movie_id = PInt 8, t_title = PStr ''Ran'', tags = ''sciencefiction alpacino''\<rparr>"
    by code_simp
  have m: "names_ok odd_overview"
    by (simp add: names_ok_def is_str_list_def is_str_def odd_overview_def)
  from preprocess_data_tags[OF n, of keep_token] d m o t show ?thesis by simp
qed

text \<open>
  C9 as stated fails for a record whose overview is missing: the record is dropped,
  where the claim has it keep a tag string built from its other fields. It also fails
  for a genre whose name is missing: \<open>replace\<close> raises.
\<close>

theorem missing_overview_drops_record:
  "r_overview no_overview = PNone \<and>
   preprocess_data keep_token [no_overview] = Inr [] \<and>
   tags (tagged_spec keep_token no_overview) = ''sciencefiction alpacino'' \<and>
   preprocess_data keep_token [no_overview] \<noteq> Inr [tagged_spec keep_token no_overview] \<and>
   preprocess_data keep_token [null_genre] = Inl AttributeError"
  by code_simp

lemma sorted_take_drop_le:
  assumes "sorted (map f xs)" and "x \<in> set (take n xs)" and "y \<in> set (drop n xs)"
  shows "f x \<le> f y"
proof -
  have "sorted (map f (take n xs) @ map f (drop n xs))"
    using assms(1) by (simp flip: map_append)
  then show ?thesis
    using assms(2,3) by (auto simp: sorted_append)
qed

lemma fit_props:
  "length (fit cv docs) \<le> max_features cv \<and> distinct (fit cv docs) \<and>
   set (fit cv docs) \<subseteq> set (candidates cv docs) \<and>
   (\<forall>t \<in> set (fit cv docs). \<forall>u \<in> set (candidates cv docs) - set (fit cv docs).
      doc_freq docs u \<le> doc_freq docs t)"
proof (intro conjI ballI)
  let ?f = "\<lambda>t. - int (doc_freq docs t)"
  let ?L = "sort_key ?f (candidates cv docs)"
  show "length (fit cv docs) \<le> max_features cv" by (simp add: fit_def)
  have "distinct (candidates cv docs)" by (simp add: candidates_def)
  then have "distinct ?L" by simp
  then show "distinct (fit cv docs)" by (simp add: fit_def)
  show "set (fit cv docs) \<subseteq> set (candidates cv docs)"
    using set_take_subset[of "max_features cv" ?L] by (simp add: fit_def)
  fix t u
  assume t: "t \<in> set (fit cv docs)" and u: "u \<in> set (candidates cv docs) - set (fit cv docs)"
  have "set ?L = set (take (max_features cv) ?L) \<union> set (drop (max_features cv) ?L)"
    by (metis append_take_drop_id set_append)
  with u have "u \<in> set (drop (max_features cv) ?L)" by (auto simp: fit_def)
  moreover have "sorted (map ?f ?L)" by (rule sorted_sort_key)
  ultimately have "?f t \<le> ?f u"
    using t sorted_take_drop_le[of ?f ?L t "max_features cv" u] by (simp add: fit_def)
  then show "doc_freq docs u \<le> doc_freq docs t" by simp
qed

lemma candidates_props:
  "t \<in> set (candidates cv docs) \<Longrightarrow> t \<notin> set (stop_words cv) \<and> (\<exists>d \<in> set docs. t \<in> set (py_split d))"
  by (auto simp: candidates_def)

text \<open>
  C6: the vectorizer of \<open>MovieDataUpdater\<close> has the cap 5000 and the English stop-word
  list, and the vocabulary it learns has at most 5000 terms. For every vectorizer the
  vocabulary has at most \<open>max_features\<close> terms, all distinct, none of them a stop word,
  each a token of some tag string, and no candidate left out has a higher document
  frequency than a term kept.
\<close>

theorem vocabulary_capped_by_document_frequency:
  "max_features (MovieDataUpdater_cv english) = 5000 \<and>
   stop_words (MovieDataUpdater_cv english) = english \<and>
   length (fit (MovieDataUpdater_cv english) docs) \<le> 5000 \<and>
   length (fit cv docs) \<le> max_features cv \<and> distinct (fit cv docs) \<and>
   (\<forall>t \<in> set (fit cv docs). t \<notin> set (stop_words cv) \<and> (\<exists>d \<in> set docs. t \<in> set (py_split d))) \<and>
   (\<forall>t \<in> set (fit cv docs). \<forall>u \<in> set (candidates cv docs) - set (fit cv docs).
      doc_freq docs u \<le> doc_freq docs t)"
proof -
  have "length (fit (MovieDataUpdater_cv english) docs) \<le> max_features (MovieDataUpdater_cv english)"
    using fit_props[of "MovieDataUpdater_cv english" docs] by blast
  moreover have "max_features (MovieDataUpdater_cv english) = 5000"
    "stop_words (MovieDataUpdater_cv english) = english"
    by (simp_all add: MovieDataUpdater_cv_def)
  moreover have "\<forall>t \<in> set (fit cv docs). t \<notin> set (stop_words cv) \<and> (\<exists>d \<in> set docs. t \<in> set (py_split d))"
    using fit_props[of cv docs] candidates_props[of _ cv docs] by blast
  ultimately show ?thesis using fit_props[of cv docs] by simp
qed

theorem vocabulary_capped_by_document_frequency_witness:
  "fit tiny_cv [''space war the'', ''space love'', ''desert love''] = [''space'', ''love''] \<and>
   candidates tiny_cv [''space war the'', ''space love'', ''desert love''] =
     [''war'', ''space'', ''desert'', ''love''] \<and>
   length (fit tiny_cv [''space war the'', ''space love'', ''desert love'']) \<le> max_features tiny_cv \<and>
   doc_freq [''space war the'', ''space love'', ''desert love''] ''war''
     \<le> doc_freq [''space war the'', ''space love'', ''desert love''] ''love'' \<and>
   fit (MovieDataUpdater_cv [''the'']) [''space war the'', ''space love'', ''desert love''] =
     [''space'', ''love'', ''war'', ''desert'']"
proof -
  have f: "fit tiny_cv [''space war the'', ''space love'', ''desert love''] = [''space'', ''love'']"
    by code_simp
  have c: "candidates tiny_cv [''space war the'', ''space love'', ''desert love''] =
     [''war'', ''space'', ''desert'', ''love'']"
    by code_simp
  have g: "fit (MovieDataUpdater_cv [''the'']) [''space war the'', ''space love'', ''desert love''] =
     [''space'', ''love'', ''war'', ''desert'']"
    by code_simp
  have d: "doc_freq [''space war the'', ''space love'', ''desert love''] ''war''
     \<le> doc_freq [''space war the'', ''space love'', ''desert love''] ''love''"
    by code_simp
  have "length (fit tiny_cv [''space war the'', ''space love'', ''desert love'']) \<le> max_features tiny_cv"
    by (rule vocabulary_capped_by_document_frequency[where english = "[''the'']"
      and docs = "[''space war the'', ''space love'', ''desert love'']" and cv = tiny_cv,
      THEN conjunct2, THEN conjunct2, THEN conjunct2, THEN conjunct1])
  with f c g d show ?thesis by simp
qed

lemma sum_squares_nonneg: "(0::real) \<le> sum_list (map (\<lambda>x. x * x) v)"
  by (induction v) auto

lemma sum_squares_zero_iff: "sum_list (map (\<lambda>x. x * x) v) = (0::real) \<longleftrightarrow> (\<forall>x \<in> set v. x = 0)"
proof (induction v)
  case Nil
  then show ?case by simp
next
  case (Cons a v)
  have "a * a + sum_list (map (\<lambda>x. x * x) v) = 0 \<longleftrightarrow> a * a = 0 \<and> sum_list (map (\<lambda>x. x * x) v) = 0"
    using sum_squares_nonneg[of v] by (intro add_nonneg_eq_0_iff) auto
  with Cons show ?case by auto
qed

lemma l2_norm_zero_iff: "l2_norm v = 0 \<longleftrightarrow> (\<forall>x \<in> set v. x = 0)"
  by (simp add: l2_norm_def sum_squares_zero_iff)

lemma l2_norm_nonneg: "0 \<le> l2_norm v"
  by (simp add: l2_norm_def sum_squares_nonneg)

lemma sum_squares_scaled:
  "sum_list (map (\<lambda>x. x * x / (n * n)) v) = sum_list (map (\<lambda>x. x * x) v) / (n * n)"
  for n :: real
  by (induction v) (simp_all add: add_divide_distrib)

lemma l2_norm_scaled:
  assumes "0 < n"
  shows "l2_norm (map (\<lambda>x. x / n) v) = l2_norm v / n"
proof -
  have "l2_norm (map (\<lambda>x. x / n) v) = sqrt (sum_list (map (\<lambda>x. x * x) v) / (n * n))"
    by (simp add: l2_norm_def o_def sum_squares_scaled)
  also have "\<dots> = sqrt (sum_list (map (\<lambda>x. x * x) v)) / sqrt (n * n)"
    by (rule real_sqrt_divide)
  also have "sqrt (n * n) = n"
    using assms by simp
  finally show ?thesis by (simp add: l2_norm_def)
qed

lemma normalize_row_ok:
  "\<exists>r. normalize_row v = Inr r \<and> length r = length v \<and>
     (l2_norm r = 1 \<or> (\<forall>x \<in> set r. x = 0)) \<and> ((\<forall>x \<in> set v. x = 0) \<longrightarrow> r = v)"
proof (cases "l2_norm v = 0")
  case True
  then show ?thesis by (simp add: normalize_row_def l2_norm_zero_iff)
next
  case False
  then have pos: "0 < l2_norm v" using l2_norm_nonneg[of v] by simp
  have "map_result (divide_by (l2_norm v)) v = Inr (map (\<lambda>x. x / l2_norm v) v)"
    using False by (intro map_result_total) (simp add: divide_by_def)
  with False have r: "normalize_row v = Inr (map (\<lambda>x. x / l2_norm v) v)"
    by (simp add: normalize_row_def)
  have "l2_norm (map (\<lambda>x. x / l2_norm v) v) = 1"
    using pos by (simp add: l2_norm_scaled)
  with r False show ?thesis by (auto simp: l2_norm_zero_iff)
qed

lemma normalize_L2_ok:
  "\<exists>rows. normalize_L2 m = Inr rows \<and>
     list_all2 (\<lambda>v r. length r = length v \<and> (l2_norm r = 1 \<or> (\<forall>x \<in> set r. x = 0)) \<and>
        ((\<forall>x \<in> set v. x = 0) \<longrightarrow> r = v)) m rows"
proof (induction m)
  case Nil
  then show ?case by (simp add: normalize_L2_def)
next
  case (Cons v m)
  then obtain rows where rows: "map_result normalize_row m = Inr rows"
    and all: "list_all2 (\<lambda>v r. length r = length v \<and> (l2_norm r = 1 \<or> (\<forall>x \<in> set r. x = 0)) \<and>
        ((\<forall>x \<in> set v. x = 0) \<longrightarrow> r = v)) m rows"
    by (auto simp: normalize_L2_def)
  obtain r where r: "normalize_row v = Inr r" "length r = length v"
    "l2_norm r = 1 \<or> (\<forall>x \<in> set r. x = 0)" "(\<forall>x \<in> set v. x = 0) \<longrightarrow> r = v"
    using normalize_row_ok[of v] by blast
  from rows r(1) have "normalize_L2 (v # m) = Inr (r # rows)"
    by (simp add: normalize_L2_def)
  with all r show ?case by simp
qed

lemma transform_no_overlap:
  assumes "set (py_split d) \<inter> set vocabulary = {}"
  shows "map (\<lambda>t. real (count_list (py_split d) t)) vocabulary = replicate (length vocabulary) 0"
proof -
  have "\<forall>t \<in> set vocabulary. real (count_list (py_split d) t) = 0"
    using assms by (auto simp: count_list_0_iff)
  then have "map (\<lambda>t. real (count_list (py_split d) t)) vocabulary = map (\<lambda>t. 0) vocabulary"
    by (intro map_cong) auto
  then show ?thesis by (simp add: map_replicate_const)
qed

lemma sqrt_25: "sqrt 25 = 5"
  by (rule real_sqrt_unique) simp_all

text \<open>
  C7: row normalization never divides by zero; every row of its result has Euclidean
  norm 1 or is all zero, and an all-zero row is returned as it is. So the rows that
  \<open>build_faiss_index\<close> puts into the index have norm 1 or are zero, and the row of a
  tag string that shares no term with the vocabulary is the zero vector.
\<close>

theorem feature_rows_unit_or_zero:
  "(\<exists>rows. normalize_L2 m = Inr rows \<and> length rows = length m \<and>
      (\<forall>r \<in> set rows. l2_norm r = 1 \<or> (\<forall>x \<in> set r. x = 0)) \<and>
      (\<forall>i < length m. (\<forall>x \<in> set (m ! i). x = 0) \<longrightarrow> rows ! i = m ! i)) \<and>
   (\<exists>vectors. build_faiss_index cv tag_col = Inr (IndexFlatIP vectors, vectors) \<and>
      length vectors = length tag_col \<and>
      (\<forall>r \<in> set vectors. l2_norm r = 1 \<or> (\<forall>x \<in> set r. x = 0)) \<and>
      (\<forall>i < length tag_col. set (py_split (tag_col ! i)) \<inter> set (fit cv tag_col) = {} \<longrightarrow>
         vectors ! i = replicate (length (fit cv tag_col)) 0))"
proof -
  have general: "\<exists>rows. normalize_L2 m = Inr rows \<and> length rows = length m \<and>
      (\<forall>r \<in> set rows. l2_norm r = 1 \<or> (\<forall>x \<in> set r. x = 0)) \<and>
      (\<forall>i < length m. (\<forall>x \<in> set (m ! i). x = 0) \<longrightarrow> rows ! i = m ! i)" for m
  proof -
    obtain rows where n: "normalize_L2 m = Inr rows"
      and all: "list_all2 (\<lambda>v r. length r = length v \<and> (l2_norm r = 1 \<or> (\<forall>x \<in> set r. x = 0)) \<and>
        ((\<forall>x \<in> set v. x = 0) \<longrightarrow> r = v)) m rows"
      using normalize_L2_ok[of m] by blast
    from all have len: "length rows = length m" by (simp add: list_all2_lengthD)
    from all have nth: "\<forall>i < length m. (l2_norm (rows ! i) = 1 \<or> (\<forall>x \<in> set (rows ! i). x = 0)) \<and>
        ((\<forall>x \<in> set (m ! i). x = 0) \<longrightarrow> rows ! i = m ! i)"
      by (simp add: list_all2_conv_all_nth)
    have "\<forall>r \<in> set rows. l2_norm r = 1 \<or> (\<forall>x \<in> set r. x = 0)"
    proof
      fix r assume "r \<in> set rows"
      then obtain i where "i < length rows" "rows ! i = r" by (auto simp: in_set_conv_nth)
      with nth len show "l2_norm r = 1 \<or> (\<forall>x \<in> set r. x = 0)" by auto
    qed
    with n len nth show ?thesis by blast
  qed
  let ?V = "transform (fit cv tag_col) tag_col"
  obtain vectors where n: "normalize_L2 ?V = Inr vectors" and len: "length vectors = length ?V"
    and unit: "\<forall>r \<in> set vectors. l2_norm r = 1 \<or> (\<forall>x \<in> set r. x = 0)"
    and zero: "\<forall>i < length ?V. (\<forall>x \<in> set (?V ! i). x = 0) \<longrightarrow> vectors ! i = ?V ! i"
    using general[of ?V] by blast
  have lv: "length ?V = length tag_col" by (simp add: transform_def)
  have b: "build_faiss_index cv tag_col = Inr (IndexFlatIP vectors, vectors)"
    using n by (simp add: build_faiss_index_def)
  have "\<forall>i < length tag_col. set (py_split (tag_col ! i)) \<inter> set (fit cv tag_col) = {} \<longrightarrow>
         vectors ! i = replicate (length (fit cv tag_col)) 0"
  proof (intro allI impI)
    fix i assume i: "i < length tag_col"
      and e: "set (py_split (tag_col ! i)) \<inter> set (fit cv tag_col) = {}"
    from i have "?V ! i = map (\<lambda>t. real (count_list (py_split (tag_col ! i)) t)) (fit cv tag_col)"
      by (simp add: transform_def)
    with transform_no_overlap[OF e] have row: "?V ! i = replicate (length (fit cv tag_col)) 0"
      by simp
    then have "\<forall>x \<in> set (?V ! i). x = 0" by simp
    with zero i lv have "vectors ! i = ?V ! i" by simp
    with row show "vectors ! i = replicate (length (fit cv tag_col)) 0" by simp
  qed
  with b len lv unit general[of m] show ?thesis by simp
qed

theorem feature_rows_unit_or_zero_witness:
  "normalize_L2 [[3, 4], [0, 0]] = Inr [[3/5, 4/5], [0, 0]] \<and>
   l2_norm [3/5, 4/5] = 1 \<and>
   fit tiny_cv [''space'', ''the''] = [''space''] \<and>
   set (py_split ''the'') \<inter> set (fit tiny_cv [''space'', ''the'']) = {} \<and>
   build_faiss_index tiny_cv [''space'', ''the''] = Inr (IndexFlatIP [[1], [0]], [[1], [0]])"
proof -
  have n: "normalize_L2 [[3, 4], [0, 0]] = Inr [[3/5, 4/5], [0, 0]]"
    by (simp add: normalize_L2_def normalize_row_def l2_norm_def divide_by_def sqrt_25)
  have f: "fit tiny_cv [''space'', ''the''] = [''space'']"
    by code_simp
  have e: "set (py_split ''the'') \<inter> set (fit tiny_cv [''space'', ''the'']) = {}"
    unfolding f by code_simp
  have t: "transform [''space''] [''space'', ''the''] = [[1], [0]]"
    by (simp add: transform_def py_split_def is_space_def)
  have b: "build_faiss_index tiny_cv [''space'', ''the''] = Inr (IndexFlatIP [[1], [0]], [[1], [0]])"
    by (simp add: build_faiss_index_def f t normalize_L2_def normalize_row_def l2_norm_def divide_by_def)
  from feature_rows_unit_or_zero[of "[[3, 4], [0, 0]]" tiny_cv "[''space'', ''the'']"] n
  have "l2_norm [3/5, 4/5] = 1 \<or> (\<forall>x \<in> set [3/5, 4/5 :: real]. x = 0)"
    by auto
  then have u: "l2_norm [3/5, 4/5] = 1" by simp
  from n u f e b show ?thesis by simp
qed

end
